theory Spec2Isabelle
  imports Main "HOL-Library.Word" "HOL-Library.Multiset"
begin

unbundle bit_operations_syntax

text \<open>
  A shallow embedding of the book API: the models of \<^verbatim>\<open>core/models.py\<close>, the serializers
  of \<^verbatim>\<open>book/serializers.py\<close> and the view set of \<^verbatim>\<open>book/views.py\<close>. The repository
  is declarative: most of what runs is Django and Django REST framework (DRF) code driven
  by those declarations. The parts of the two frameworks that the declarations select are
  written out below, each next to the declaration that selects it.
\<close>

section \<open>Path helpers used by the image field\<close>

text \<open>
  \<^verbatim>\<open>str.rfind\<close>: the index of the last occurrence of a character, \<open>-1\<close> when there is none.
\<close>

fun rfind_from :: "char \<Rightarrow> string \<Rightarrow> nat \<Rightarrow> int \<Rightarrow> int" where
  "rfind_from c [] i acc = acc"
| "rfind_from c (x # xs) i acc = rfind_from c xs (Suc i) (if x = c then int i else acc)"

definition rfind :: "char \<Rightarrow> string \<Rightarrow> int" where
  "rfind c p = rfind_from c p 0 (- 1)"

text \<open>
  The loop of \<^verbatim>\<open>genericpath._splitext\<close> that skips leading dots of the file name:
  it answers whether some character in \<open>p[i:dotIndex]\<close> is not a dot.
\<close>

function skip_dots :: "string \<Rightarrow> nat \<Rightarrow> nat \<Rightarrow> bool" where
  "skip_dots p filenameIndex dotIndex =
     (if filenameIndex < dotIndex then
        (if take 1 (drop filenameIndex p) \<noteq> ''.'' then True
         else skip_dots p (Suc filenameIndex) dotIndex)
      else False)"
  by pat_completeness auto
termination
  by (relation "measure (\<lambda>(p, i, d). d - i)") auto

declare skip_dots.simps [simp del]

text \<open>\<^verbatim>\<open>os.path.splitext\<close> on a POSIX system (separator \<open>/\<close>, no alternative separator).\<close>

definition splitext :: "string \<Rightarrow> string \<times> string" where
  "splitext p =
     (let sepIndex = rfind (CHR ''/'') p;
          dotIndex = rfind (CHR ''.'') p
      in if dotIndex > sepIndex \<and> skip_dots p (nat (sepIndex + 1)) (nat dotIndex)
         then (take (nat dotIndex) p, drop (nat dotIndex) p)
         else (p, []))"


text \<open>\<^verbatim>\<open>os.path.join\<close> on a POSIX system.\<close>

fun join_step :: "string \<Rightarrow> string \<Rightarrow> string" where
  "join_step path b =
     (if take 1 b = ''/'' then b
      else if path = [] \<or> (path \<noteq> [] \<and> last path = CHR ''/'') then path @ b
      else path @ ''/'' @ b)"

definition path_join :: "string \<Rightarrow> string list \<Rightarrow> string" where
  "path_join a ps = foldl join_step a ps"


section \<open>UUIDs\<close>

text \<open>
  A UUID is a 128-bit integer. \<^verbatim>\<open>str(uuid)\<close> prints it as 32 lower-case hexadecimal
  digits grouped 8-4-4-4-12. The value returned by \<^verbatim>\<open>uuid.uuid4()\<close> is random; the
  model takes it as an argument of every function that draws one.
\<close>

type_synonym uuid = "128 word"

definition hex_digit :: "nat \<Rightarrow> char" where
  "hex_digit n = ''0123456789abcdef'' ! (n mod 16)"

definition nibble :: "uuid \<Rightarrow> nat \<Rightarrow> nat" where
  "nibble u i = unat (drop_bit (4 * i) u AND 15)"

definition hex32 :: "uuid \<Rightarrow> string" where
  "hex32 u = map (\<lambda>i. hex_digit (nibble u i)) (rev [0..<32])"

definition uuid_str :: "uuid \<Rightarrow> string" where
  "uuid_str u =
     (let h = hex32 u
      in take 8 h @ ''-'' @ take 4 (drop 8 h) @ ''-'' @ take 4 (drop 12 h) @ ''-'' @
         take 4 (drop 16 h) @ ''-'' @ drop 20 h)"

text \<open>
  \<^verbatim>\<open>book_image_file_path(instance, filename)\<close>; the instance is not used. The first
  argument is the UUID drawn by \<^verbatim>\<open>uuid.uuid4()\<close>.
\<close>

definition book_image_file_path :: "uuid \<Rightarrow> string \<Rightarrow> string" where
  "book_image_file_path u filename =
     (let ext = snd (splitext filename);
          filename' = uuid_str u @ ext
      in path_join ''uploads'' [''book'', filename'])"


section \<open>Strings, numbers and dates\<close>

text \<open>
  Strings are byte strings here, so \<^verbatim>\<open>str.strip\<close>, \<^verbatim>\<open>str.lower\<close> and \<^verbatim>\<open>\d\<close> are
  modelled on ASCII.
\<close>

definition is_space :: "char \<Rightarrow> bool" where
  \<comment> \<open>tab, line feed, vertical tab, form feed, carriage return, the four separators, space\<close>
  "is_space c \<longleftrightarrow>
     (let n = (of_char c :: nat) in (9 \<le> n \<and> n \<le> 13) \<or> (28 \<le> n \<and> n \<le> 32))"

definition lstrip :: "string \<Rightarrow> string" where
  "lstrip s = dropWhile is_space s"

definition rstrip :: "string \<Rightarrow> string" where
  "rstrip s = rev (dropWhile is_space (rev s))"

definition strip :: "string \<Rightarrow> string" where
  "strip s = rstrip (lstrip s)"

definition lower_char :: "char \<Rightarrow> char" where
  "lower_char c =
     (let n = (of_char c :: nat) in if 65 \<le> n \<and> n \<le> 90 then char_of (n + 32) else c)"

definition lower :: "string \<Rightarrow> string" where
  "lower s = map lower_char s"

definition is_digit :: "char \<Rightarrow> bool" where
  "is_digit c \<longleftrightarrow> 48 \<le> (of_char c :: nat) \<and> (of_char c :: nat) \<le> 57"

definition digit_char :: "nat \<Rightarrow> char" where
  "digit_char n = char_of (48 + n mod 10)"

definition digit_val :: "char \<Rightarrow> nat" where
  "digit_val c = of_char c - 48"

text \<open>\<^verbatim>\<open>int(s)\<close> on a string of decimal digits.\<close>

definition nat_of_digits :: "string \<Rightarrow> nat" where
  "nat_of_digits s = foldl (\<lambda>a c. 10 * a + digit_val c) 0 s"

text \<open>\<^verbatim>\<open>str(n)\<close> for a Python integer.\<close>

fun dec :: "nat \<Rightarrow> string" where
  "dec n = (if n < 10 then [digit_char n] else dec (n div 10) @ [digit_char n])"

declare dec.simps [simp del]

definition str_int :: "int \<Rightarrow> string" where
  "str_int i = (if i < 0 then CHR ''-'' # dec (nat (- i)) else dec (nat i))"

text \<open>\<^verbatim>\<open>datetime.date\<close>: a calendar date between the years 1 and 9999.\<close>

record date =
  year :: nat
  month :: nat
  day :: nat

definition is_leap :: "nat \<Rightarrow> bool" where
  "is_leap y \<longleftrightarrow> y mod 4 = 0 \<and> (y mod 100 \<noteq> 0 \<or> y mod 400 = 0)"

definition days_in_month :: "nat \<Rightarrow> nat \<Rightarrow> nat" where
  "days_in_month y m =
     (if m = 2 then (if is_leap y then 29 else 28)
      else if m = 4 \<or> m = 6 \<or> m = 9 \<or> m = 11 then 30 else 31)"

definition valid_date :: "date \<Rightarrow> bool" where
  "valid_date d \<longleftrightarrow>
     1 \<le> year d \<and> year d \<le> 9999 \<and> 1 \<le> month d \<and> month d \<le> 12 \<and>
     1 \<le> day d \<and> day d \<le> days_in_month (year d) (month d)"

text \<open>The constructor \<^verbatim>\<open>datetime.date(y, m, d)\<close>, which raises \<^verbatim>\<open>ValueError\<close> out of range.\<close>

definition make_date :: "nat \<Rightarrow> nat \<Rightarrow> nat \<Rightarrow> date option" where
  "make_date y m d =
     (let r = \<lparr>year = y, month = m, day = d\<rparr> in if valid_date r then Some r else None)"

text \<open>\<^verbatim>\<open>date.isoformat()\<close>: \<^verbatim>\<open>'%04d-%02d-%02d'\<close>.\<close>

definition pad2 :: "nat \<Rightarrow> string" where
  "pad2 n = [digit_char (n div 10), digit_char n]"

definition pad4 :: "nat \<Rightarrow> string" where
  "pad4 n = [digit_char (n div 1000), digit_char (n div 100), digit_char (n div 10), digit_char n]"

definition isoformat :: "date \<Rightarrow> string" where
  "isoformat d = pad4 (year d) @ ''-'' @ pad2 (month d) @ ''-'' @ pad2 (day d)"

text \<open>
  \<^verbatim>\<open>django.utils.dateparse.parse_date\<close> on the spelling its regular expression
  \<^verbatim>\<open>(\d{4})-(\d{1,2})-(\d{1,2})$\<close> accepts (a final newline is allowed by \<^verbatim>\<open>$\<close>). The
  other ISO 8601 spellings that \<^verbatim>\<open>date.fromisoformat\<close> of recent interpreters also reads
  are not modelled. \<open>None\<close> stands for both a failed match and the \<^verbatim>\<open>ValueError\<close> of an
  impossible date; DRF treats the two alike.
\<close>

definition parse_date :: "string \<Rightarrow> date option" where
  "parse_date s =
     (let s0 = (if s \<noteq> [] \<and> last s = CHR 0x0A then butlast s else s);
          y = takeWhile is_digit s0; r1 = dropWhile is_digit s0;
          m = takeWhile is_digit (drop 1 r1); r2 = dropWhile is_digit (drop 1 r1);
          d = takeWhile is_digit (drop 1 r2); r3 = dropWhile is_digit (drop 1 r2)
      in if length y = 4 \<and> take 1 r1 = ''-'' \<and>
            (length m = 1 \<or> length m = 2) \<and> take 1 r2 = ''-'' \<and>
            (length d = 1 \<or> length d = 2) \<and> r3 = []
         then make_date (nat_of_digits y) (nat_of_digits m) (nat_of_digits d)
         else None)"


section \<open>Database models\<close>

text \<open>
  \<^verbatim>\<open>class User(AbstractBaseUser, PermissionsMixin)\<close>: the columns declared in
  \<^verbatim>\<open>core/models.py\<close>, the \<^verbatim>\<open>password\<close> column of \<^verbatim>\<open>AbstractBaseUser\<close> and the
  \<^verbatim>\<open>is_superuser\<close> flag of \<^verbatim>\<open>PermissionsMixin\<close>, with the automatic primary key.
\<close>

record user =
  user_id :: nat
  email :: string
  name :: string
  password :: string
  is_active :: bool
  is_staff :: bool
  is_superuser :: bool

text \<open>
  \<^verbatim>\<open>class Book(models.Model)\<close>. The foreign key \<^verbatim>\<open>user\<close> holds the owner's primary key;
  \<^verbatim>\<open>image\<close> holds the stored path, \<open>None\<close> when the column is NULL.
\<close>

record book =
  book_id :: nat
  user :: nat
  title :: string
  author :: string
  release_date :: date
  genre :: string
  description :: string
  image_ref :: "string option"

text \<open>
  The two tables, with the counters from which the database draws primary keys. The file
  store that holds the uploaded bytes is not part of the model.
\<close>

record db =
  users :: "user list"
  books :: "book list"
  next_user_id :: nat
  next_book_id :: nat

datatype error =
    NotAuthenticated
  | NotFound
  | ValidationError "(string \<times> string) list"
  | ValueError string
  | IntegrityError

text \<open>
  The status DRF's exception handler answers with; an exception it does not handle
  becomes a server error.
\<close>

fun http_status :: "error \<Rightarrow> nat" where
  "http_status NotAuthenticated = 401"
| "http_status NotFound = 404"
| "http_status (ValidationError es) = 400"
| "http_status (ValueError m) = 500"
| "http_status IntegrityError = 500"

section \<open>User manager\<close>

text \<open>
  \<^verbatim>\<open>BaseUserManager.normalize_email\<close>: strip, split at the last \<open>@\<close>, lower-case the
  domain; an address without \<open>@\<close> is returned as it came (\<^verbatim>\<open>rsplit\<close> then yields one
  piece and the unpacking raises \<^verbatim>\<open>ValueError\<close>, which is swallowed).
\<close>

definition normalize_email :: "string \<Rightarrow> string" where
  "normalize_email e =
     (let s = strip e
      in if CHR ''@'' \<in> set s
         then (let i = nat (rfind (CHR ''@'') s)
               in take i s @ ''@'' @ lower (drop (Suc i) s))
         else e)"

text \<open>
  The keyword arguments \<^verbatim>\<open>**extra_fields\<close> that \<^verbatim>\<open>self.model(...)\<close> accepts besides
  \<^verbatim>\<open>email\<close>; an absent key leaves the column at its declared default.
\<close>

record extra_fields =
  ef_name :: "string option"
  ef_is_active :: "bool option"
  ef_is_staff :: "bool option"
  ef_is_superuser :: "bool option"

definition no_extra_fields :: extra_fields where
  "no_extra_fields =
     \<lparr>ef_name = None, ef_is_active = None, ef_is_staff = None, ef_is_superuser = None\<rparr>"

text \<open>
  \<^verbatim>\<open>user.save()\<close> of a row without primary key: an INSERT, refused with
  \<^verbatim>\<open>IntegrityError\<close> when the \<^verbatim>\<open>unique=True\<close> constraint on \<^verbatim>\<open>email\<close> is violated.
\<close>

definition email_taken :: "db \<Rightarrow> string \<Rightarrow> bool" where
  "email_taken d a \<longleftrightarrow> (\<exists>x \<in> set (users d). email x = a)"

definition insert_user :: "user \<Rightarrow> db \<Rightarrow> (error + user) \<times> db" where
  "insert_user u d =
     (if email_taken d (email u) then (Inl IntegrityError, d)
      else (let u' = u\<lparr>user_id := next_user_id d\<rparr>
            in (Inr u', d\<lparr>users := users d @ [u'], next_user_id := Suc (next_user_id d)\<rparr>)))"

text \<open>
  \<^verbatim>\<open>user.save()\<close> of a row that has a primary key: an UPDATE of that row, and an INSERT
  when the UPDATE finds none.
\<close>

definition update_user :: "user \<Rightarrow> db \<Rightarrow> (error + user) \<times> db" where
  "update_user u d =
     (if \<exists>x \<in> set (users d). user_id x \<noteq> user_id u \<and> email x = email u
      then (Inl IntegrityError, d)
      else if \<exists>x \<in> set (users d). user_id x = user_id u
      then (Inr u, d\<lparr>users := map (\<lambda>x. if user_id x = user_id u then u else x) (users d)\<rparr>)
      else (Inr u, d\<lparr>users := users d @ [u]\<rparr>))"

text \<open>
  \<^verbatim>\<open>UserManager.create_user(email, password=None, **extra_fields)\<close>. The first argument
  is Django's \<^verbatim>\<open>make_password\<close>, the password hasher with its salt; it also accepts
  \<^verbatim>\<open>None\<close>, for which it returns an unusable password.
\<close>

definition create_user ::
  "(string option \<Rightarrow> string) \<Rightarrow> string \<Rightarrow> string option \<Rightarrow> extra_fields \<Rightarrow> db
     \<Rightarrow> (error + user) \<times> db" where
  "create_user make_password email' password' extra d =
     (if email' = [] then (Inl (ValueError ''User must have an email address''), d)
      else
        (let u = \<lparr>user_id = 0,
                  email = normalize_email email',
                  name = (case ef_name extra of None \<Rightarrow> [] | Some n \<Rightarrow> n),
                  password = [],
                  is_active = (case ef_is_active extra of None \<Rightarrow> True | Some b \<Rightarrow> b),
                  is_staff = (case ef_is_staff extra of None \<Rightarrow> False | Some b \<Rightarrow> b),
                  is_superuser = (case ef_is_superuser extra of None \<Rightarrow> False | Some b \<Rightarrow> b)\<rparr>;
             u = u\<lparr>password := make_password password'\<rparr>
         in insert_user u d))"

text \<open>\<^verbatim>\<open>UserManager.create_superuser(email, password)\<close>.\<close>

definition create_superuser ::
  "(string option \<Rightarrow> string) \<Rightarrow> string \<Rightarrow> string option \<Rightarrow> db \<Rightarrow> (error + user) \<times> db" where
  "create_superuser make_password email' password' d =
     (case create_user make_password email' password' no_extra_fields d of
        (Inl e, d') \<Rightarrow> (Inl e, d')
      | (Inr u, d') \<Rightarrow>
          (let u = u\<lparr>is_superuser := True\<rparr>;
               u = u\<lparr>is_staff := True\<rparr>
           in update_user u d'))"

section \<open>Request data and serializer fields\<close>

text \<open>An uploaded file: the name the client gave it and its bytes.\<close>

record uploaded_file =
  file_name :: string
  file_content :: string

datatype jvalue = JNull | JBool bool | JInt int | JStr string | JFile uploaded_file

text \<open>
  \<^verbatim>\<open>request.data\<close>: the parsed body. \<open>is_html\<close> tells a form or multipart body (a
  \<^verbatim>\<open>QueryDict\<close>) from a JSON body.
\<close>

record request_data =
  is_html :: bool
  items :: "string \<Rightarrow> jvalue option"

datatype 'a field_result = SkipField | Valid 'a | Invalid string

text \<open>
  \<^verbatim>\<open>Field.get_value\<close> for a field without \<^verbatim>\<open>allow_blank\<close>: in form input an empty string
  stands for null where null is allowed, and for an absent value where the field is not
  required. \<open>None\<close> is DRF's \<^verbatim>\<open>empty\<close> marker.
\<close>

definition get_value :: "request_data \<Rightarrow> bool \<Rightarrow> bool \<Rightarrow> string \<Rightarrow> jvalue option" where
  "get_value data required allow_null field_name =
     (if is_html data then
        (case items data field_name of
           None \<Rightarrow> None
         | Some ret \<Rightarrow>
             if ret = JStr [] \<and> allow_null then Some JNull
             else if ret = JStr [] \<and> \<not> required then None
             else Some ret)
      else items data field_name)"

text \<open>
  \<^verbatim>\<open>Field.run_validation\<close>: \<^verbatim>\<open>validate_empty_values\<close>, then the field's own
  \<^verbatim>\<open>to_internal_value\<close> with its validators. \<open>null = None\<close> is \<^verbatim>\<open>allow_null=False\<close>;
  \<open>null = Some n\<close> is \<^verbatim>\<open>allow_null=True\<close>, with \<open>n\<close> the internal value of Python's
  \<^verbatim>\<open>None\<close>. No field of this repository declares a default, so an absent value that is
  not required skips the field.
\<close>

definition run_validation ::
  "bool \<Rightarrow> bool \<Rightarrow> 'a option \<Rightarrow> (jvalue \<Rightarrow> string + 'a) \<Rightarrow> jvalue option \<Rightarrow> 'a field_result" where
  "run_validation partial required null to_internal data =
     (case data of
        None \<Rightarrow> if partial then SkipField
                else if required then Invalid ''required''
                else SkipField
      | Some v \<Rightarrow>
          if v = JNull then (case null of None \<Rightarrow> Invalid ''null'' | Some n \<Rightarrow> Valid n)
          else (case to_internal v of Inl code \<Rightarrow> Invalid code | Inr x \<Rightarrow> Valid x))"

text \<open>\<^verbatim>\<open>str(data)\<close> as \<^verbatim>\<open>CharField\<close> applies it to whatever arrived.\<close>

fun py_str :: "jvalue \<Rightarrow> string" where
  "py_str JNull = ''None''"
| "py_str (JBool b) = (if b then ''True'' else ''False'')"
| "py_str (JInt i) = str_int i"
| "py_str (JStr s) = s"
| "py_str (JFile f) = file_name f"

text \<open>
  \<^verbatim>\<open>CharField.to_internal_value\<close> with \<^verbatim>\<open>trim_whitespace=True\<close>, followed by the
  validators: the maximum length that mirrors the column width, and the ban on NUL
  characters. Of several failures the first is reported.
\<close>

definition char_to_internal :: "nat option \<Rightarrow> jvalue \<Rightarrow> string + string" where
  "char_to_internal max_length v =
     (if (case v of JStr s \<Rightarrow> False | JInt i \<Rightarrow> False | _ \<Rightarrow> True) then Inl ''invalid''
      else
        (let value = strip (py_str v)
         in if (case max_length of None \<Rightarrow> False | Some n \<Rightarrow> n < length value)
            then Inl ''max_length''
            else if CHR 0x00 \<in> set value then Inl ''null_characters_not_allowed''
            else Inr value))"

text \<open>
  \<^verbatim>\<open>CharField.run_validation\<close>: a value that is blank after trimming is refused before
  anything else, since no text column of \<^verbatim>\<open>Book\<close> declares \<^verbatim>\<open>blank=True\<close>. The text
  columns are neither nullable nor optional.
\<close>

definition char_field :: "bool \<Rightarrow> nat option \<Rightarrow> jvalue option \<Rightarrow> string field_result" where
  "char_field partial max_length data =
     (if (case data of None \<Rightarrow> False | Some v \<Rightarrow> v = JStr [] \<or> strip (py_str v) = [])
      then Invalid ''blank''
      else run_validation partial True None (char_to_internal max_length) data)"

text \<open>\<^verbatim>\<open>DateField.to_internal_value\<close> with the default ISO 8601 input format.\<close>

definition date_to_internal :: "jvalue \<Rightarrow> string + date" where
  "date_to_internal v =
     (case v of
        JStr s \<Rightarrow> (case parse_date s of None \<Rightarrow> Inl ''invalid'' | Some d \<Rightarrow> Inr d)
      | _ \<Rightarrow> Inl ''invalid'')"

definition date_field :: "bool \<Rightarrow> jvalue option \<Rightarrow> date field_result" where
  "date_field partial data = run_validation partial True None date_to_internal data"

text \<open>
  \<^verbatim>\<open>ImageField.to_internal_value\<close>. Anything that is not an uploaded file is refused
  (\<^verbatim>\<open>invalid\<close>); for a file, \<open>decodable\<close> is the verdict of the framework's checks on its
  name and size and of Pillow on its bytes. The column is declared \<^verbatim>\<open>null=True\<close>, from
  which the serializer field gets \<^verbatim>\<open>allow_null=True\<close>.
\<close>

definition image_to_internal ::
  "(uploaded_file \<Rightarrow> bool) \<Rightarrow> jvalue \<Rightarrow> string + uploaded_file option" where
  "image_to_internal decodable v =
     (case v of
        JFile f \<Rightarrow> if decodable f then Inr (Some f) else Inl ''invalid_image''
      | _ \<Rightarrow> Inl ''invalid'')"

definition image_field ::
  "(uploaded_file \<Rightarrow> bool) \<Rightarrow> bool \<Rightarrow> bool \<Rightarrow> jvalue option \<Rightarrow> uploaded_file option field_result" where
  "image_field decodable partial required data =
     run_validation partial required (Some None) (image_to_internal decodable) data"


section \<open>Serializers\<close>

datatype serializer_class = BookSerializer | BookImageSerializer

text \<open>\<^verbatim>\<open>Meta.fields\<close> and \<^verbatim>\<open>Meta.read_only_fields\<close> of the two serializers.\<close>

fun meta_fields :: "serializer_class \<Rightarrow> string list" where
  "meta_fields BookSerializer =
     [''id'', ''title'', ''author'', ''release_date'', ''genre'', ''description'', ''image'']"
| "meta_fields BookImageSerializer = [''id'', ''image'']"

fun read_only_fields :: "serializer_class \<Rightarrow> string list" where
  "read_only_fields BookSerializer = [''id'']"
| "read_only_fields BookImageSerializer = [''id'']"

text \<open>The fields a request can write: those of \<^verbatim>\<open>Meta.fields\<close> that are not read-only.\<close>

definition writable_fields :: "serializer_class \<Rightarrow> string list" where
  "writable_fields cls = filter (\<lambda>f. f \<notin> set (read_only_fields cls)) (meta_fields cls)"

text \<open>
  Whether the \<^verbatim>\<open>image\<close> field is required. The column is nullable, so the generated
  field is optional; \<^verbatim>\<open>BookImageSerializer\<close> overrides that with
  \<^verbatim>\<open>extra_kwargs = {'image': {'required': 'True'}}\<close>, a non-empty string and hence true.
\<close>

fun image_required :: "serializer_class \<Rightarrow> bool" where
  "image_required BookSerializer = False"
| "image_required BookImageSerializer = True"

text \<open>
  \<^verbatim>\<open>serializer.validated_data\<close>: one entry per writable field, \<open>None\<close> when the key is
  not in the dictionary. For \<open>vd_image\<close>, \<open>Some None\<close> is the key bound to \<^verbatim>\<open>None\<close>.
\<close>

record validated_data =
  vd_title :: "string option"
  vd_author :: "string option"
  vd_release_date :: "date option"
  vd_genre :: "string option"
  vd_description :: "string option"
  vd_image :: "uploaded_file option option"

fun field_errors :: "string \<Rightarrow> 'a field_result \<Rightarrow> (string \<times> string) list" where
  "field_errors field_name (Invalid code) = [(field_name, code)]"
| "field_errors field_name r = []"

fun field_value :: "'a field_result \<Rightarrow> 'a option" where
  "field_value (Valid x) = Some x"
| "field_value r = None"

text \<open>
  \<^verbatim>\<open>Serializer.to_internal_value\<close> as \<^verbatim>\<open>is_valid()\<close> runs it: every writable field of
  \<^verbatim>\<open>Meta.fields\<close> reads its own key of the data and is validated; keys that name no
  field are never looked at. The errors of all fields are collected.
\<close>

definition to_internal_value ::
  "serializer_class \<Rightarrow> (uploaded_file \<Rightarrow> bool) \<Rightarrow> bool \<Rightarrow> request_data \<Rightarrow> error + validated_data" where
  "to_internal_value cls decodable partial data =
     (case cls of
        BookSerializer \<Rightarrow>
          (let t = char_field partial (Some 255) (get_value data True False ''title'');
               a = char_field partial (Some 255) (get_value data True False ''author'');
               r = date_field partial (get_value data True False ''release_date'');
               g = char_field partial (Some 255) (get_value data True False ''genre'');
               ds = char_field partial None (get_value data True False ''description'');
               i = image_field decodable partial (image_required cls)
                     (get_value data (image_required cls) True ''image'');
               errors = field_errors ''title'' t @ field_errors ''author'' a @
                        field_errors ''release_date'' r @ field_errors ''genre'' g @
                        field_errors ''description'' ds @ field_errors ''image'' i
           in if errors \<noteq> [] then Inl (ValidationError errors)
              else Inr \<lparr>vd_title = field_value t, vd_author = field_value a,
                        vd_release_date = field_value r, vd_genre = field_value g,
                        vd_description = field_value ds, vd_image = field_value i\<rparr>)
      | BookImageSerializer \<Rightarrow>
          (let i = image_field decodable partial (image_required cls)
                     (get_value data (image_required cls) True ''image'');
               errors = field_errors ''image'' i
           in if errors \<noteq> [] then Inl (ValidationError errors)
              else Inr \<lparr>vd_title = None, vd_author = None, vd_release_date = None,
                        vd_genre = None, vd_description = None, vd_image = field_value i\<rparr>))"

text \<open>
  \<^verbatim>\<open>FileField.to_representation\<close>: null for an empty reference, otherwise the URL under
  which the storage serves the path; \<open>url\<close> is that mapping (media URL and host).
\<close>

definition image_representation :: "(string \<Rightarrow> string) \<Rightarrow> string option \<Rightarrow> jvalue" where
  "image_representation url i =
     (case i of None \<Rightarrow> JNull | Some p \<Rightarrow> if p = [] then JNull else JStr (url p))"

text \<open>\<^verbatim>\<open>Serializer.to_representation\<close>: the fields of \<^verbatim>\<open>Meta.fields\<close>, in order.\<close>

definition to_representation ::
  "serializer_class \<Rightarrow> (string \<Rightarrow> string) \<Rightarrow> book \<Rightarrow> (string \<times> jvalue) list" where
  "to_representation cls url b =
     (case cls of
        BookSerializer \<Rightarrow>
          [(''id'', JInt (int (book_id b))),
           (''title'', JStr (title b)),
           (''author'', JStr (author b)),
           (''release_date'', JStr (isoformat (release_date b))),
           (''genre'', JStr (genre b)),
           (''description'', JStr (description b)),
           (''image'', image_representation url (image_ref b))]
      | BookImageSerializer \<Rightarrow>
          [(''id'', JInt (int (book_id b))),
           (''image'', image_representation url (image_ref b))])"


text \<open>
  What the image column holds after a save: an uploaded file is stored under the name
  \<^verbatim>\<open>upload_to=book_image_file_path\<close> generates for it, \<open>u\<close> being the UUID drawn then.
\<close>

definition stored_image :: "uuid \<Rightarrow> uploaded_file option \<Rightarrow> string option" where
  "stored_image u f =
     (case f of None \<Rightarrow> None | Some x \<Rightarrow> Some (book_image_file_path u (file_name x)))"

text \<open>
  \<^verbatim>\<open>ModelSerializer.create\<close>: \<^verbatim>\<open>Book.objects.create(**validated_data)\<close> with the
  keyword arguments of \<^verbatim>\<open>save()\<close> added. A text column without a value gets the empty
  string; the date column has no such default and the INSERT fails on NOT NULL.
\<close>

definition serializer_create ::
  "nat \<Rightarrow> validated_data \<Rightarrow> uuid \<Rightarrow> db \<Rightarrow> (error + book) \<times> db" where
  "serializer_create owner vd u d =
     (case vd_release_date vd of
        None \<Rightarrow> (Inl IntegrityError, d)
      | Some rd \<Rightarrow>
          (let b = \<lparr>book_id = next_book_id d,
                    user = owner,
                    title = (case vd_title vd of None \<Rightarrow> [] | Some x \<Rightarrow> x),
                    author = (case vd_author vd of None \<Rightarrow> [] | Some x \<Rightarrow> x),
                    release_date = rd,
                    genre = (case vd_genre vd of None \<Rightarrow> [] | Some x \<Rightarrow> x),
                    description = (case vd_description vd of None \<Rightarrow> [] | Some x \<Rightarrow> x),
                    image_ref = (case vd_image vd of None \<Rightarrow> None | Some f \<Rightarrow> stored_image u f)\<rparr>
           in (Inr b, d\<lparr>books := books d @ [b], next_book_id := Suc (next_book_id d)\<rparr>)))"

text \<open>
  \<^verbatim>\<open>book.save()\<close> of a row that has a primary key: an UPDATE of that row, and an INSERT
  when the UPDATE finds none.
\<close>

definition save_book :: "book \<Rightarrow> db \<Rightarrow> db" where
  "save_book b d =
     (if \<exists>x \<in> set (books d). book_id x = book_id b
      then d\<lparr>books := map (\<lambda>x. if book_id x = book_id b then b else x) (books d)\<rparr>
      else d\<lparr>books := books d @ [b]\<rparr>)"

text \<open>
  \<^verbatim>\<open>ModelSerializer.update\<close>: \<^verbatim>\<open>setattr\<close> for every entry of the validated data, then
  \<^verbatim>\<open>instance.save()\<close>.
\<close>

definition set_attrs :: "book \<Rightarrow> validated_data \<Rightarrow> uuid \<Rightarrow> book" where
  "set_attrs instance vd u =
     (let b = (case vd_title vd of None \<Rightarrow> instance | Some x \<Rightarrow> instance\<lparr>title := x\<rparr>);
          b = (case vd_author vd of None \<Rightarrow> b | Some x \<Rightarrow> b\<lparr>author := x\<rparr>);
          b = (case vd_release_date vd of None \<Rightarrow> b | Some x \<Rightarrow> b\<lparr>release_date := x\<rparr>);
          b = (case vd_genre vd of None \<Rightarrow> b | Some x \<Rightarrow> b\<lparr>genre := x\<rparr>);
          b = (case vd_description vd of None \<Rightarrow> b | Some x \<Rightarrow> b\<lparr>description := x\<rparr>);
          b = (case vd_image vd of None \<Rightarrow> b | Some f \<Rightarrow> b\<lparr>image_ref := stored_image u f\<rparr>)
      in b)"

definition serializer_update :: "book \<Rightarrow> validated_data \<Rightarrow> uuid \<Rightarrow> db \<Rightarrow> book \<times> db" where
  "serializer_update instance vd u d =
     (let b = set_attrs instance vd u in (b, save_book b d))"

section \<open>The view set\<close>

datatype action =
  A_list | A_create | A_retrieve | A_update | A_partial_update | A_destroy | A_upload_image

text \<open>\<^verbatim>\<open>order_by("-id")\<close>.\<close>

definition order_by_id_desc :: "book list \<Rightarrow> book list" where
  "order_by_id_desc bs = rev (sort_key book_id bs)"

text \<open>\<^verbatim>\<open>BookViewSet.get_queryset\<close>; \<open>caller\<close> is \<^verbatim>\<open>self.request.user\<close>.\<close>

definition get_queryset :: "user \<Rightarrow> db \<Rightarrow> book list" where
  "get_queryset caller d =
     order_by_id_desc (filter (\<lambda>b. user b = user_id caller) (books d))"

text \<open>\<^verbatim>\<open>BookViewSet.get_serializer_class\<close>.\<close>

definition get_serializer_class :: "action \<Rightarrow> serializer_class" where
  "get_serializer_class a =
     (if a = A_list then BookSerializer
      else if a = A_upload_image then BookImageSerializer
      else BookSerializer)"

text \<open>
  \<^verbatim>\<open>permission_classes = [IsAuthenticated]\<close>: a request without a resolved user is
  refused before any action runs. The actions below take the resolved user.
\<close>

definition check_permissions :: "user option \<Rightarrow> error + user" where
  "check_permissions request_user =
     (case request_user of None \<Rightarrow> Inl NotAuthenticated | Some u \<Rightarrow> Inr u)"

text \<open>
  \<^verbatim>\<open>GenericAPIView.get_object\<close>: \<^verbatim>\<open>get_object_or_404\<close> on the queryset of
  \<^verbatim>\<open>get_queryset\<close>, looked up by primary key.
\<close>

definition get_object :: "user \<Rightarrow> nat \<Rightarrow> db \<Rightarrow> error + book" where
  "get_object caller pk d =
     (case find (\<lambda>b. book_id b = pk) (get_queryset caller d) of
        None \<Rightarrow> Inl NotFound
      | Some b \<Rightarrow> Inr b)"

text \<open>The inherited \<^verbatim>\<open>list\<close> action.\<close>

definition list_view :: "(string \<Rightarrow> string) \<Rightarrow> user \<Rightarrow> db \<Rightarrow> (string \<times> jvalue) list list" where
  "list_view url caller d =
     map (to_representation (get_serializer_class A_list) url) (get_queryset caller d)"

text \<open>The inherited \<^verbatim>\<open>retrieve\<close> action.\<close>

definition retrieve_view ::
  "(string \<Rightarrow> string) \<Rightarrow> user \<Rightarrow> nat \<Rightarrow> db \<Rightarrow> error + (string \<times> jvalue) list" where
  "retrieve_view url caller pk d =
     (case get_object caller pk d of
        Inl e \<Rightarrow> Inl e
      | Inr b \<Rightarrow> Inr (to_representation (get_serializer_class A_retrieve) url b))"

text \<open>\<^verbatim>\<open>BookViewSet.perform_create\<close>: \<^verbatim>\<open>serializer.save(user=self.request.user)\<close>.\<close>

definition perform_create ::
  "user \<Rightarrow> validated_data \<Rightarrow> uuid \<Rightarrow> db \<Rightarrow> (error + book) \<times> db" where
  "perform_create caller vd u d = serializer_create (user_id caller) vd u d"

text \<open>
  The inherited \<^verbatim>\<open>create\<close> action: validate with \<^verbatim>\<open>raise_exception=True\<close>, then
  \<^verbatim>\<open>perform_create\<close>, then answer with the representation of the new row.
\<close>

definition create_view ::
  "(uploaded_file \<Rightarrow> bool) \<Rightarrow> (string \<Rightarrow> string) \<Rightarrow> user \<Rightarrow> uuid \<Rightarrow> request_data \<Rightarrow> db
     \<Rightarrow> (error + (string \<times> jvalue) list) \<times> db" where
  "create_view decodable url caller u data d =
     (case to_internal_value (get_serializer_class A_create) decodable False data of
        Inl e \<Rightarrow> (Inl e, d)
      | Inr vd \<Rightarrow>
          (case perform_create caller vd u d of
             (Inl e, d') \<Rightarrow> (Inl e, d')
           | (Inr b, d') \<Rightarrow> (Inr (to_representation (get_serializer_class A_create) url b), d')))"

text \<open>
  The inherited \<^verbatim>\<open>update\<close> action; \<^verbatim>\<open>perform_update\<close> is not overridden and calls
  \<^verbatim>\<open>serializer.save()\<close> without arguments.
\<close>

definition update_view ::
  "(uploaded_file \<Rightarrow> bool) \<Rightarrow> (string \<Rightarrow> string) \<Rightarrow> bool \<Rightarrow> user \<Rightarrow> nat \<Rightarrow> uuid \<Rightarrow> request_data
     \<Rightarrow> db \<Rightarrow> (error + (string \<times> jvalue) list) \<times> db" where
  "update_view decodable url partial caller pk u data d =
     (case get_object caller pk d of
        Inl e \<Rightarrow> (Inl e, d)
      | Inr instance \<Rightarrow>
          (case to_internal_value (get_serializer_class (if partial then A_partial_update else A_update))
                  decodable partial data of
             Inl e \<Rightarrow> (Inl e, d)
           | Inr vd \<Rightarrow>
               (case serializer_update instance vd u d of
                  (b, d') \<Rightarrow>
                    (Inr (to_representation
                            (get_serializer_class (if partial then A_partial_update else A_update))
                            url b), d'))))"

text \<open>The inherited \<^verbatim>\<open>partial_update\<close> action.\<close>

definition partial_update_view ::
  "(uploaded_file \<Rightarrow> bool) \<Rightarrow> (string \<Rightarrow> string) \<Rightarrow> user \<Rightarrow> nat \<Rightarrow> uuid \<Rightarrow> request_data
     \<Rightarrow> db \<Rightarrow> (error + (string \<times> jvalue) list) \<times> db" where
  "partial_update_view decodable url caller pk u data d =
     update_view decodable url True caller pk u data d"

text \<open>The inherited \<^verbatim>\<open>destroy\<close> action.\<close>

definition destroy_view :: "user \<Rightarrow> nat \<Rightarrow> db \<Rightarrow> (error + unit) \<times> db" where
  "destroy_view caller pk d =
     (case get_object caller pk d of
        Inl e \<Rightarrow> (Inl e, d)
      | Inr instance \<Rightarrow>
          (Inr (), d\<lparr>books := filter (\<lambda>b. book_id b \<noteq> book_id instance) (books d)\<rparr>))"

text \<open>
  \<^verbatim>\<open>BookViewSet.upload_image\<close>. The two \<^verbatim>\<open>Response\<close>s of the source are the two
  results: the representation with status 200, the serializer's errors with status 400.
\<close>

definition upload_image ::
  "(uploaded_file \<Rightarrow> bool) \<Rightarrow> (string \<Rightarrow> string) \<Rightarrow> user \<Rightarrow> nat \<Rightarrow> uuid \<Rightarrow> request_data \<Rightarrow> db
     \<Rightarrow> (error + (string \<times> jvalue) list) \<times> db" where
  "upload_image decodable url caller pk u data d =
     (case get_object caller pk d of
        Inl e \<Rightarrow> (Inl e, d)
      | Inr book \<Rightarrow>
          (case to_internal_value (get_serializer_class A_upload_image) decodable False data of
             Inr vd \<Rightarrow>
               (case serializer_update book vd u d of
                  (b, d') \<Rightarrow> (Inr (to_representation (get_serializer_class A_upload_image) url b), d'))
           | Inl errors \<Rightarrow> (Inl errors, d)))"

text \<open>The status line of a response.\<close>

definition response_status :: "action \<Rightarrow> error + 'a \<Rightarrow> nat" where
  "response_status a r =
     (case r of
        Inl e \<Rightarrow> http_status e
      | Inr x \<Rightarrow> if a = A_create then 201 else if a = A_destroy then 204 else 200)"


section \<open>Fixtures\<close>

text \<open>
  The sample data of \<^verbatim>\<open>book/tests/test_book_api.py\<close>: two users, the default book of
  \<^verbatim>\<open>create_book\<close>, and stand-ins for the three services the framework is configured
  with (password hasher, image decoder, media URL).
\<close>

definition sample_hasher :: "string option \<Rightarrow> string" where
  "sample_hasher p = (case p of None \<Rightarrow> ''!'' | Some s \<Rightarrow> ''pbkdf2_sha256$'' @ s)"

definition sample_decodable :: "uploaded_file \<Rightarrow> bool" where
  "sample_decodable f \<longleftrightarrow> take 2 (file_content f) = [CHR 0xFF, CHR 0xD8] \<and> file_name f \<noteq> []"

definition sample_url :: "string \<Rightarrow> string" where
  "sample_url p = ''/media/'' @ p"

definition sample_uuid :: uuid where
  "sample_uuid = 0x123e4567e89b12d3a456426614174000"

definition sample_user :: "nat \<Rightarrow> string \<Rightarrow> user" where
  "sample_user i e =
     \<lparr>user_id = i, email = e, name = [], password = sample_hasher (Some ''test123''),
      is_active = True, is_staff = False, is_superuser = False\<rparr>"

definition sample_book :: "nat \<Rightarrow> nat \<Rightarrow> string option \<Rightarrow> book" where
  "sample_book i owner img =
     \<lparr>book_id = i, user = owner, title = ''Sample book title'', author = ''sample author name'',
      release_date = \<lparr>year = 2030, month = 9, day = 12\<rparr>, genre = ''sample genre'',
      description = ''sample desc'', image_ref = img\<rparr>"

definition empty_db :: db where
  "empty_db = \<lparr>users = [], books = [], next_user_id = 1, next_book_id = 1\<rparr>"

definition sample_db :: db where
  "sample_db =
     \<lparr>users = [sample_user 1 ''user@example.com'', sample_user 2 ''other@example.com''],
      books = [sample_book 1 1 None, sample_book 2 2 None,
               sample_book 3 1 (Some ''uploads/book/0f0e0d0c-0b0a-4908-8706-050403020100.jpg'')],
      next_user_id = 3, next_book_id = 4\<rparr>"


definition sample_caller :: user where
  "sample_caller = sample_user 1 ''user@example.com''"

definition sample_patch :: request_data where
  "sample_patch =
     \<lparr>is_html = False, items = [''title'' \<mapsto> JStr ''New title'', ''user'' \<mapsto> JInt 2]\<rparr>"

definition sample_bad_upload :: request_data where
  "sample_bad_upload = \<lparr>is_html = True, items = [''image'' \<mapsto> JStr ''notanimage'']\<rparr>"

definition sample_null_upload :: request_data where
  "sample_null_upload = \<lparr>is_html = False, items = [''image'' \<mapsto> JNull]\<rparr>"

definition sample_image :: uploaded_file where
  "sample_image = \<lparr>file_name = ''cover.jpg'', file_content = [CHR 0xFF, CHR 0xD8, CHR 0xFF]\<rparr>"

text \<open>What the serializer leaves of a text: trimmed, not blank, within the column width.\<close>

definition clean_text :: "nat option \<Rightarrow> string \<Rightarrow> bool" where
  "clean_text max_length s \<longleftrightarrow>
     strip s = s \<and> s \<noteq> [] \<and> CHR 0x00 \<notin> set s \<and>
     (case max_length of None \<Rightarrow> True | Some n \<Rightarrow> length s \<le> n)"

text \<open>The primary keys of both tables are unique and below the counters.\<close>

definition db_ok :: "db \<Rightarrow> bool" where
  "db_ok d \<longleftrightarrow>
     distinct (map book_id (books d)) \<and> (\<forall>b \<in> set (books d). book_id b < next_book_id d) \<and>
     distinct (map user_id (users d)) \<and> (\<forall>x \<in> set (users d). user_id x < next_user_id d) \<and>
     distinct (map email (users d))"

text \<open>
  The database states the manager and the views can produce, starting from empty tables.
  The direct ORM call of the tests, \<^verbatim>\<open>Book.objects.create(user=user, **params)\<close>, is the
  step \<open>orm_create\<close>.
\<close>

inductive reachable :: "db \<Rightarrow> bool" where
  init: "reachable empty_db"
| user_created: "reachable d \<Longrightarrow> reachable (snd (create_user mk e pw ef d))"
| superuser_created: "reachable d \<Longrightarrow> reachable (snd (create_superuser mk e pw d))"
| orm_create: "reachable d \<Longrightarrow> reachable (snd (serializer_create owner vd u d))"
| created: "reachable d \<Longrightarrow> reachable (snd (create_view dcd url c u data d))"
| updated: "reachable d \<Longrightarrow> reachable (snd (update_view dcd url p c pk u data d))"
| uploaded: "reachable d \<Longrightarrow> reachable (snd (upload_image dcd url c pk u data d))"
| destroyed: "reachable d \<Longrightarrow> reachable (snd (destroy_view c pk d))"

section \<open>Facts about the path helpers\<close>







lemma splitext_append: "fst (splitext p) @ snd (splitext p) = p"
  by (simp add: splitext_def Let_def)






section \<open>Facts about the printed form of a UUID\<close>
















section \<open>The generated image path\<close>





section \<open>Properties of the model\<close>

lemma set_get_queryset:
  "set (get_queryset c d) = {b \<in> set (books d). user b = user_id c}"
  by (auto simp: get_queryset_def order_by_id_desc_def)

lemma mset_get_queryset:
  "mset (get_queryset c d) = filter_mset (\<lambda>b. user b = user_id c) (mset (books d))"
  by (simp add: get_queryset_def order_by_id_desc_def)

lemma desc_get_queryset:
  assumes "distinct (map book_id (books d))"
  shows "sorted_wrt (>) (map book_id (get_queryset c d))"
proof -
  let ?own = "filter (\<lambda>b. user b = user_id c) (books d)"
  have "distinct (map book_id ?own)"
    using assms by (rule distinct_map_filter)
  moreover have "mset (map book_id (sort_key book_id ?own)) = mset (map book_id ?own)"
    by simp
  ultimately have "distinct (map book_id (sort_key book_id ?own))"
    by (metis mset_eq_imp_distinct_iff)
  moreover have "sorted (map book_id (sort_key book_id ?own))"
    by (rule sorted_sort_key)
  ultimately have "sorted_wrt (<) (map book_id (sort_key book_id ?own))"
    by (simp add: strict_sorted_iff)
  then have "sorted_wrt (>) (rev (map book_id (sort_key book_id ?own)))"
    by (simp add: sorted_wrt_rev)
  then show ?thesis
    by (simp add: get_queryset_def order_by_id_desc_def rev_map)
qed

lemma get_queryset_owned:
  "get_queryset c (d\<lparr>books := filter (\<lambda>b. user b = user_id c) (books d)\<rparr>) = get_queryset c d"
  by (simp add: get_queryset_def)

lemma get_object_NotFound:
  "get_object c i d = Inl NotFound \<longleftrightarrow>
     \<not> (\<exists>b \<in> set (books d). book_id b = i \<and> user b = user_id c)"
proof -
  have "find (\<lambda>b. book_id b = i) (get_queryset c d) = None \<longleftrightarrow>
      \<not> (\<exists>b \<in> set (books d). book_id b = i \<and> user b = user_id c)"
    by (auto simp: find_None_iff set_get_queryset)
  then show ?thesis
    by (auto simp: get_object_def split: option.splits)
qed

lemma get_object_Inr:
  "get_object c i d = Inr b \<Longrightarrow> b \<in> set (books d) \<and> book_id b = i \<and> user b = user_id c"
  using set_get_queryset [of c d]
  by (auto simp: get_object_def find_Some_iff split: option.splits)

text \<open>
  Claim C3. The queryset behind \<^verbatim>\<open>list()\<close> holds exactly the rows whose owner is the
  caller, each as often as the table holds it, and the response is their representations
  in the queryset's order. Where the primary keys of the table are distinct, the ids of
  the queryset are strictly descending.
\<close>

theorem list_owner_scoped_desc:
  "set (get_queryset c d) = {b \<in> set (books d). user b = user_id c} \<and>
   mset (get_queryset c d) = filter_mset (\<lambda>b. user b = user_id c) (mset (books d)) \<and>
   list_view url c d = map (to_representation BookSerializer url) (get_queryset c d) \<and>
   (distinct (map book_id (books d)) \<longrightarrow> sorted_wrt (>) (map book_id (get_queryset c d)))"
  by (simp add: set_get_queryset mset_get_queryset desc_get_queryset list_view_def
      get_serializer_class_def)


text \<open>
  Claim C2. When no row has both the id asked for and the caller as owner, \<^verbatim>\<open>retrieve\<close>
  answers \<open>NotFound\<close> (status 404), whether the id is unknown or belongs to another user.
  The answer is computed from the caller's own rows alone: removing every other user's
  rows from the table does not change it, so the two cases cannot be told apart.
\<close>

theorem retrieve_not_found:
  "(\<not> (\<exists>b \<in> set (books d). book_id b = i \<and> user b = user_id c) \<longrightarrow>
      retrieve_view url c i d = Inl NotFound \<and>
      response_status A_retrieve (retrieve_view url c i d) = 404) \<and>
   retrieve_view url c i (d\<lparr>books := filter (\<lambda>b. user b = user_id c) (books d)\<rparr>) =
      retrieve_view url c i d"
proof -
  have a: "retrieve_view url c i d = Inl NotFound"
    if "\<not> (\<exists>b \<in> set (books d). book_id b = i \<and> user b = user_id c)"
    using that get_object_NotFound [of c i d] by (simp add: retrieve_view_def)
  have b: "retrieve_view url c i (d\<lparr>books := filter (\<lambda>b. user b = user_id c) (books d)\<rparr>) =
      retrieve_view url c i d"
    by (simp add: retrieve_view_def get_object_def get_queryset_owned)
  show ?thesis
    using a b by (auto simp: response_status_def)
qed

lemma get_value_other:
  "k \<noteq> nm \<Longrightarrow> get_value (data\<lparr>items := (items data)(k \<mapsto> x)\<rparr>) r a nm = get_value data r a nm"
  by (simp add: get_value_def)

lemma to_internal_value_ignores:
  assumes "k \<notin> set (writable_fields cls)"
  shows "to_internal_value cls dcd p (data\<lparr>items := (items data)(k \<mapsto> x)\<rparr>) =
         to_internal_value cls dcd p data"
proof (cases cls)
  case BookSerializer
  with assms have "k \<noteq> ''title''" "k \<noteq> ''author''" "k \<noteq> ''release_date''" "k \<noteq> ''genre''"
    "k \<noteq> ''description''" "k \<noteq> ''image''"
    by (auto simp: writable_fields_def)
  then show ?thesis
    by (simp add: BookSerializer to_internal_value_def get_value_other)
next
  case BookImageSerializer
  with assms have "k \<noteq> ''image''"
    by (auto simp: writable_fields_def)
  then show ?thesis
    by (simp add: BookImageSerializer to_internal_value_def get_value_other)
qed




lemma book_validated_parts:
  assumes "to_internal_value BookSerializer dcd p data = Inr vd"
  shows "vd_title vd = field_value (char_field p (Some 255) (get_value data True False ''title''))"
    and "vd_author vd = field_value (char_field p (Some 255) (get_value data True False ''author''))"
    and "vd_release_date vd = field_value (date_field p (get_value data True False ''release_date''))"
    and "vd_genre vd = field_value (char_field p (Some 255) (get_value data True False ''genre''))"
    and "vd_description vd = field_value (char_field p None (get_value data True False ''description''))"
    and "vd_image vd = field_value (image_field dcd p False (get_value data False True ''image''))"
    and "field_errors ''title'' (char_field p (Some 255) (get_value data True False ''title'')) = []"
    and "field_errors ''author'' (char_field p (Some 255) (get_value data True False ''author'')) = []"
    and "field_errors ''release_date'' (date_field p (get_value data True False ''release_date'')) = []"
    and "field_errors ''genre'' (char_field p (Some 255) (get_value data True False ''genre'')) = []"
    and "field_errors ''description'' (char_field p None (get_value data True False ''description'')) = []"
    and "field_errors ''image'' (image_field dcd p False (get_value data False True ''image'')) = []"
  using assms
  by (auto simp: to_internal_value_def Let_def split: if_splits)



lemma set_attrs_keeps:
  "book_id (set_attrs b vd u) = book_id b" "user (set_attrs b vd u) = user b"
  by (simp_all add: set_attrs_def Let_def split: option.splits)

lemma save_book_owner:
  assumes dist: "distinct (map book_id (books d))" and x: "x \<in> set (books d)"
    and id: "book_id b = book_id x" and own: "user b = user x"
  shows "map (\<lambda>b. (book_id b, user b)) (books (save_book b d)) =
         map (\<lambda>b. (book_id b, user b)) (books d)"
proof -
  have inj: "inj_on book_id (set (books d))"
    using dist by (simp add: distinct_map)
  have "(book_id (if book_id y = book_id b then b else y), user (if book_id y = book_id b then b else y))
        = (book_id y, user y)" if "y \<in> set (books d)" for y
  proof (cases "book_id y = book_id b")
    case True
    then have "y = x"
      using inj that x id by (simp add: inj_on_eq_iff)
    then show ?thesis
      using True own by simp
  next
    case False
    then show ?thesis by simp
  qed
  then have "map (\<lambda>b. (book_id b, user b)) (map (\<lambda>y. if book_id y = book_id b then b else y) (books d))
      = map (\<lambda>b. (book_id b, user b)) (books d)"
    by (simp add: comp_def)
  moreover have "\<exists>y \<in> set (books d). book_id y = book_id b"
    using x id by auto
  ultimately show ?thesis
    by (simp add: save_book_def)
qed

lemma update_view_class:
  "get_serializer_class (if p then A_partial_update else A_update) = BookSerializer"
  by (simp add: get_serializer_class_def)

lemma update_view_owner:
  assumes "distinct (map book_id (books d))"
  shows "map (\<lambda>b. (book_id b, user b)) (books (snd (update_view dcd url p c pk u data d))) =
         map (\<lambda>b. (book_id b, user b)) (books d)"
proof (cases "get_object c pk d")
  case (Inl e)
  then show ?thesis by (simp add: update_view_def)
next
  case found: (Inr inst)
  then have mem: "inst \<in> set (books d)"
    by (simp add: get_object_Inr)
  show ?thesis
  proof (cases "to_internal_value BookSerializer dcd p data")
    case (Inl e)
    then show ?thesis
      using found by (simp only: update_view_def update_view_class sum.case snd_conv)
  next
    case (Inr vd)
    have "map (\<lambda>b. (book_id b, user b)) (books (save_book (set_attrs inst vd u) d)) =
        map (\<lambda>b. (book_id b, user b)) (books d)"
      using assms mem by (rule save_book_owner) (simp_all add: set_attrs_keeps)
    then show ?thesis
      using Inr found
      by (simp only: update_view_def update_view_class sum.case serializer_update_def Let_def
          prod.case snd_conv)
  qed
qed

lemma update_view_ignores:
  assumes "k \<notin> set (writable_fields BookSerializer)"
  shows "update_view dcd url p c pk u (data\<lparr>items := (items data)(k \<mapsto> x)\<rparr>) d =
         update_view dcd url p c pk u data d"
  unfolding update_view_def update_view_class to_internal_value_ignores [OF assms]
  by (rule refl)

text \<open>
  Claim C9. With distinct primary keys, \<^verbatim>\<open>update\<close> and \<^verbatim>\<open>partial_update\<close> leave the
  owner of every row as it was, whatever the payload and whether or not the call
  succeeds. A \<open>user\<close> key in the payload is ignored, and the representation of a book has
  no \<open>user\<close> entry: the full serializer neither reads nor writes ownership.
\<close>

theorem update_preserves_owner:
  assumes "distinct (map book_id (books d))"
  shows "map (\<lambda>b. (book_id b, user b))
           (books (snd (update_view decodable url partial caller pk u data d))) =
         map (\<lambda>b. (book_id b, user b)) (books d) \<and>
         map (\<lambda>b. (book_id b, user b))
           (books (snd (partial_update_view decodable url caller pk u data d))) =
         map (\<lambda>b. (book_id b, user b)) (books d) \<and>
         update_view decodable url partial caller pk u (data\<lparr>items := (items data)(''user'' \<mapsto> x)\<rparr>) d =
         update_view decodable url partial caller pk u data d \<and>
         map_of (to_representation BookSerializer url b) ''user'' = None \<and>
         ''user'' \<notin> set (meta_fields BookSerializer)"
proof -
  have "''user'' \<notin> set (writable_fields BookSerializer)"
    by (simp add: writable_fields_def)
  then have "update_view decodable url partial caller pk u (data\<lparr>items := (items data)(''user'' \<mapsto> x)\<rparr>) d =
         update_view decodable url partial caller pk u data d"
    by (rule update_view_ignores)
  moreover have "map_of (to_representation BookSerializer url b) ''user'' = None"
    by (simp add: to_representation_def)
  ultimately show ?thesis
    using update_view_owner [OF assms] by (simp add: partial_update_view_def)
qed

lemma image_upload_validate:
  "to_internal_value BookImageSerializer dcd False data =
     (case get_value data True True ''image'' of
        None \<Rightarrow> Inl (ValidationError [(''image'', ''required'')])
      | Some v \<Rightarrow>
          if v = JNull
          then Inr \<lparr>vd_title = None, vd_author = None, vd_release_date = None, vd_genre = None,
                    vd_description = None, vd_image = Some None\<rparr>
          else (case image_to_internal dcd v of
                  Inl code \<Rightarrow> Inl (ValidationError [(''image'', code)])
                | Inr f \<Rightarrow> Inr \<lparr>vd_title = None, vd_author = None, vd_release_date = None,
                    vd_genre = None, vd_description = None, vd_image = Some f\<rparr>))"
  by (simp add: to_internal_value_def image_field_def run_validation_def Let_def
      split: option.splits sum.splits)

lemma image_to_internal_Inr:
  "(\<exists>x. image_to_internal dcd v = Inr x) \<longleftrightarrow> (\<exists>f. v = JFile f \<and> dcd f)"
  by (auto simp: image_to_internal_def split: jvalue.splits)

text \<open>
  Claim C4, amended. For a book the caller owns, \<^verbatim>\<open>upload_image\<close> fails with a
  validation error exactly when the \<open>image\<close> value is absent, or is present, not null and
  not a decodable image file. Every failure has status 400 and leaves the database as it
  was. A null image (an empty string in a form body) is accepted: the call succeeds and
  clears the stored image reference. The value is absent exactly when the payload has no
  \<open>image\<close> key.
\<close>

theorem upload_image_failure:
  assumes "get_object caller pk d = Inr b"
  shows "((\<exists>es. fst (upload_image decodable url caller pk u data d) = Inl (ValidationError es)) \<longleftrightarrow>
            (case get_value data True True ''image'' of
               None \<Rightarrow> True
             | Some v \<Rightarrow> v \<noteq> JNull \<and> \<not> (\<exists>f. v = JFile f \<and> decodable f))) \<and>
         (\<forall>e. fst (upload_image decodable url caller pk u data d) = Inl e \<longrightarrow>
            snd (upload_image decodable url caller pk u data d) = d \<and>
            (\<exists>es. e = ValidationError es) \<and>
            response_status A_upload_image (fst (upload_image decodable url caller pk u data d)) = 400) \<and>
         (get_value data True True ''image'' = Some JNull \<longrightarrow>
            upload_image decodable url caller pk u data d =
              (Inr (to_representation BookImageSerializer url (b\<lparr>image_ref := None\<rparr>)),
               save_book (b\<lparr>image_ref := None\<rparr>) d)) \<and>
         (get_value data True True ''image'' = None \<longleftrightarrow> items data ''image'' = None) \<and>
         (get_value data True True ''image'' = Some JNull \<longleftrightarrow>
            items data ''image'' = Some JNull \<or>
            (is_html data \<and> items data ''image'' = Some (JStr [])))"
proof -
  have cls: "get_serializer_class A_upload_image = BookImageSerializer"
    by (simp add: get_serializer_class_def)
  have absent: "get_value data True True ''image'' = None \<longleftrightarrow> items data ''image'' = None"
    by (simp add: get_value_def split: option.splits)
  have null: "get_value data True True ''image'' = Some JNull \<longleftrightarrow>
      items data ''image'' = Some JNull \<or> (is_html data \<and> items data ''image'' = Some (JStr []))"
    by (auto simp: get_value_def split: option.splits)
  have main: "((\<exists>es. fst (upload_image decodable url caller pk u data d) = Inl (ValidationError es)) \<longleftrightarrow>
            (case get_value data True True ''image'' of
               None \<Rightarrow> True
             | Some v \<Rightarrow> v \<noteq> JNull \<and> \<not> (\<exists>f. v = JFile f \<and> decodable f))) \<and>
         (\<forall>e. fst (upload_image decodable url caller pk u data d) = Inl e \<longrightarrow>
            snd (upload_image decodable url caller pk u data d) = d \<and>
            (\<exists>es. e = ValidationError es) \<and>
            response_status A_upload_image (fst (upload_image decodable url caller pk u data d)) = 400) \<and>
         (get_value data True True ''image'' = Some JNull \<longrightarrow>
            upload_image decodable url caller pk u data d =
              (Inr (to_representation BookImageSerializer url (b\<lparr>image_ref := None\<rparr>)),
               save_book (b\<lparr>image_ref := None\<rparr>) d))"
  proof (cases "get_value data True True ''image''")
    case None
    then show ?thesis
      using assms
      by (simp add: upload_image_def cls image_upload_validate response_status_def)
  next
    case (Some v)
    show ?thesis
    proof (cases "v = JNull")
      case True
      then show ?thesis
        using assms Some
        by (simp add: upload_image_def cls image_upload_validate serializer_update_def
            set_attrs_def stored_image_def Let_def)
    next
      case False
      show ?thesis
      proof (cases "image_to_internal decodable v")
        case (Inl code)
        then have "\<not> (\<exists>f. v = JFile f \<and> decodable f)"
          using image_to_internal_Inr [of decodable v] by auto
        then show ?thesis
          using assms Some False Inl
          by (simp add: upload_image_def cls image_upload_validate response_status_def)
      next
        case (Inr f)
        then have "\<exists>f. v = JFile f \<and> decodable f"
          using image_to_internal_Inr [of decodable v] by auto
        then show ?thesis
          using assms Some False Inr
          by (simp add: upload_image_def cls image_upload_validate serializer_update_def Let_def)
      qed
    qed
  qed
  show ?thesis
    using main absent null by blast
qed

lemma create_user_empty:
  "create_user mk [] pw ef d = (Inl (ValueError ''User must have an email address''), d)"
  by (simp add: create_user_def)

lemma create_user_taken:
  assumes "e \<noteq> []" "email_taken d (normalize_email e)"
  shows "create_user mk e pw ef d = (Inl IntegrityError, d)"
  using assms by (simp add: create_user_def insert_user_def Let_def)

lemma create_user_fresh:
  assumes "e \<noteq> []" "\<not> email_taken d (normalize_email e)"
  shows "\<exists>u. create_user mk e pw ef d =
            (Inr u, d\<lparr>users := users d @ [u], next_user_id := Suc (next_user_id d)\<rparr>) \<and>
          user_id u = next_user_id d \<and> email u = normalize_email e \<and> password u = mk pw \<and>
          name u = (case ef_name ef of None \<Rightarrow> [] | Some n \<Rightarrow> n) \<and>
          is_active u = (case ef_is_active ef of None \<Rightarrow> True | Some b \<Rightarrow> b) \<and>
          is_staff u = (case ef_is_staff ef of None \<Rightarrow> False | Some b \<Rightarrow> b) \<and>
          is_superuser u = (case ef_is_superuser ef of None \<Rightarrow> False | Some b \<Rightarrow> b)"
  using assms by (simp add: create_user_def insert_user_def Let_def)

lemma create_superuser_fresh:
  assumes "e \<noteq> []" "\<not> email_taken d (normalize_email e)"
  shows "\<exists>u0 d0 u d'. create_user mk e pw no_extra_fields d = (Inr u0, d0) \<and>
           create_superuser mk e pw d = (Inr u, d') \<and>
           u = u0\<lparr>is_superuser := True, is_staff := True\<rparr> \<and>
           u \<in> set (users d') \<and>
           ((\<forall>x \<in> set (users d). user_id x \<noteq> next_user_id d) \<longrightarrow> users d' = users d @ [u])"
proof -
  from create_user_fresh [OF assms, of mk pw no_extra_fields]
  obtain u0 where c: "create_user mk e pw no_extra_fields d =
      (Inr u0, d\<lparr>users := users d @ [u0], next_user_id := Suc (next_user_id d)\<rparr>)"
    and id: "user_id u0 = next_user_id d" and em: "email u0 = normalize_email e"
    by blast
  let ?d0 = "d\<lparr>users := users d @ [u0], next_user_id := Suc (next_user_id d)\<rparr>"
  let ?u = "u0\<lparr>is_superuser := True, is_staff := True\<rparr>"
  let ?d' = "?d0\<lparr>users := map (\<lambda>x. if user_id x = user_id ?u then ?u else x) (users ?d0)\<rparr>"
  have no_clash: "\<not> (\<exists>x \<in> set (users ?d0). user_id x \<noteq> user_id ?u \<and> email x = email ?u)"
    using assms(2) em by (auto simp: email_taken_def)
  have "\<exists>x \<in> set (users ?d0). user_id x = user_id ?u"
    by simp
  with no_clash have upd: "update_user ?u ?d0 = (Inr ?u, ?d')"
    unfolding update_user_def by (simp only: if_True if_False)
  have s: "create_superuser mk e pw d = (Inr ?u, ?d')"
    by (simp add: create_superuser_def c Let_def upd del: map_append)
  have mem: "?u \<in> set (users ?d')"
    by simp
  have app: "users ?d' = users d @ [?u]" if "\<forall>x \<in> set (users d). user_id x \<noteq> next_user_id d"
    using that id by (simp add: map_idI)
  show ?thesis
    using c s mem app by blast
qed






























lemma make_date_valid: "make_date y m dd = Some r \<Longrightarrow> valid_date r"
  by (simp add: make_date_def Let_def split: if_splits)

lemma parse_date_valid:
  assumes "parse_date s = Some d"
  shows "valid_date d"
proof -
  from assms obtain y m dd where "make_date y m dd = Some d"
    unfolding parse_date_def Let_def by (metis option.distinct(1))
  then show ?thesis by (rule make_date_valid)
qed


lemma lstrip_self: "lstrip s = s \<longleftrightarrow> s = [] \<or> \<not> is_space (hd s)"
  by (simp add: lstrip_def dropWhile_eq_self_iff)

lemma rstrip_prefix: "\<exists>k. rstrip s = take k s"
proof -
  have "dropWhile is_space (rev s) = drop (length (takeWhile is_space (rev s))) (rev s)"
    by (rule dropWhile_eq_drop)
  then have "rstrip s = take (length s - length (takeWhile is_space (rev s))) s"
    by (simp add: rstrip_def rev_drop)
  then show ?thesis by blast
qed

lemma rstrip_idem: "rstrip (rstrip s) = rstrip s"
  by (simp add: rstrip_def)

lemma lstrip_rstrip:
  assumes "lstrip t = t"
  shows "lstrip (rstrip t) = rstrip t"
proof (cases "rstrip t = []")
  case True
  then show ?thesis by (simp add: lstrip_def)
next
  case False
  obtain k where k: "rstrip t = take k t"
    using rstrip_prefix by blast
  with False have "t \<noteq> []" "0 < k"
    by auto
  then have "hd (rstrip t) = hd t"
    by (simp add: k hd_take)
  moreover have "\<not> is_space (hd t)"
    using assms \<open>t \<noteq> []\<close> by (simp add: lstrip_self)
  ultimately show ?thesis
    by (simp add: lstrip_self)
qed

lemma lstrip_idem: "lstrip (lstrip s) = lstrip s"
  by (simp add: lstrip_def)

lemma strip_idem: "strip (strip s) = strip s"
  by (simp add: strip_def lstrip_rstrip lstrip_idem rstrip_idem)


lemma char_field_Valid_clean:
  assumes "char_field p m x = Valid s"
  shows "clean_text m s"
proof -
  from assms obtain v where x: "x = Some v" and nb: "strip (py_str v) \<noteq> []"
    and ci: "char_to_internal m v = Inr s"
    by (auto simp: char_field_def run_validation_def split: option.splits if_splits sum.splits)
  from ci have s: "s = strip (py_str v)"
    and nul: "CHR 0x00 \<notin> set (strip (py_str v))"
    and len: "(case m of None \<Rightarrow> True | Some n \<Rightarrow> length (strip (py_str v)) \<le> n)"
    by (auto simp: char_to_internal_def Let_def split: if_splits option.splits)
  show ?thesis
    using nb nul len by (simp add: clean_text_def s strip_idem)
qed



lemma image_field_str: "image_field dcd p r (Some (JStr s)) = Invalid ''invalid''"
  by (simp add: image_field_def run_validation_def image_to_internal_def)


text \<open>What the serializer accepts is clean text and a valid date.\<close>

lemma validated_data_clean:
  assumes "to_internal_value BookSerializer dcd p data = Inr vd"
  shows "(\<forall>t. vd_title vd = Some t \<longrightarrow> clean_text (Some 255) t) \<and>
         (\<forall>t. vd_author vd = Some t \<longrightarrow> clean_text (Some 255) t) \<and>
         (\<forall>t. vd_genre vd = Some t \<longrightarrow> clean_text (Some 255) t) \<and>
         (\<forall>t. vd_description vd = Some t \<longrightarrow> clean_text None t) \<and>
         (\<forall>r. vd_release_date vd = Some r \<longrightarrow> valid_date r)"
proof -
  have c: "clean_text m t" if "field_value (char_field p m x) = Some t" for m x t
  proof -
    from that have "char_field p m x = Valid t"
      by (cases "char_field p m x") simp_all
    then show ?thesis by (rule char_field_Valid_clean)
  qed
  have v: "valid_date r" if "field_value (date_field p x) = Some r" for x r
  proof -
    from that have "date_field p x = Valid r"
      by (cases "date_field p x") simp_all
    then obtain s where "parse_date s = Some r"
      by (auto simp: date_field_def run_validation_def date_to_internal_def
          split: option.splits if_splits jvalue.splits sum.splits)
    then show ?thesis by (rule parse_date_valid)
  qed
  show ?thesis
    using book_validated_parts(1-5) [OF assms] c v by metis
qed

lemma create_superuser_taken:
  assumes "e \<noteq> []" "email_taken d (normalize_email e)"
  shows "create_superuser mk e pw d = (Inl IntegrityError, d)"
  by (simp add: create_superuser_def create_user_taken [OF assms])

lemma create_superuser_empty:
  "create_superuser mk [] pw d = (Inl (ValueError ''User must have an email address''), d)"
  by (simp add: create_superuser_def create_user_empty)




text \<open>
  Claim C8, amended. For a non-empty address whose normal form is free,
  \<^verbatim>\<open>create_superuser\<close> first runs \<^verbatim>\<open>create_user\<close> without extra fields, then sets
  both flags on the row that call returned and saves it: the user it returns is staff and
  superuser, carries the hashed password and the normal form of the address, and is a row
  of the table afterwards (the one new row, where no earlier row has the new key). Where
  the normal form is already the address of a user, the call fails with \<open>IntegrityError\<close>
  and changes nothing.
\<close>

theorem create_superuser_contract:
  "(e \<noteq> [] \<and> \<not> email_taken d (normalize_email e) \<longrightarrow>
      (\<exists>u0 d0 u d'. create_user mk e pw no_extra_fields d = (Inr u0, d0) \<and>
         create_superuser mk e pw d = (Inr u, d') \<and>
         u = u0\<lparr>is_superuser := True, is_staff := True\<rparr> \<and>
         is_staff u \<and> is_superuser u \<and> password u = mk pw \<and> email u = normalize_email e \<and>
         u \<in> set (users d') \<and>
         ((\<forall>x \<in> set (users d). user_id x \<noteq> next_user_id d) \<longrightarrow> users d' = users d @ [u]))) \<and>
   (e \<noteq> [] \<and> email_taken d (normalize_email e) \<longrightarrow>
      create_superuser mk e pw d = (Inl IntegrityError, d))"
proof -
  have "\<exists>u0 d0 u d'. create_user mk e pw no_extra_fields d = (Inr u0, d0) \<and>
         create_superuser mk e pw d = (Inr u, d') \<and>
         u = u0\<lparr>is_superuser := True, is_staff := True\<rparr> \<and>
         is_staff u \<and> is_superuser u \<and> password u = mk pw \<and> email u = normalize_email e \<and>
         u \<in> set (users d') \<and>
         ((\<forall>x \<in> set (users d). user_id x \<noteq> next_user_id d) \<longrightarrow> users d' = users d @ [u])"
    if f: "e \<noteq> []" "\<not> email_taken d (normalize_email e)"
  proof -
    from create_superuser_fresh [OF f, of mk pw]
    obtain u0 d0 u d' where c: "create_user mk e pw no_extra_fields d = (Inr u0, d0)"
      and s: "create_superuser mk e pw d = (Inr u, d')"
      and u: "u = u0\<lparr>is_superuser := True, is_staff := True\<rparr>"
      and m: "u \<in> set (users d')"
      and a: "(\<forall>x \<in> set (users d). user_id x \<noteq> next_user_id d) \<longrightarrow> users d' = users d @ [u]"
      by blast
    from create_user_fresh [OF f, of mk pw no_extra_fields] c
    have "email u0 = normalize_email e" "password u0 = mk pw"
      by auto
    then have "is_staff u" "is_superuser u" "password u = mk pw" "email u = normalize_email e"
      by (simp_all add: u)
    with c s u m a show ?thesis by blast
  qed
  then show ?thesis
    using create_superuser_taken by blast
qed

theorem create_superuser_contract_witness:
  "\<not> email_taken sample_db (normalize_email ''admin@example.com'') \<and>
   (case fst (create_superuser sample_hasher ''admin@example.com'' (Some ''pw'') sample_db) of
      Inl e \<Rightarrow> False
    | Inr u \<Rightarrow> is_staff u \<and> is_superuser u \<and> password u = ''pbkdf2_sha256$pw'' \<and>
               email u = ''admin@example.com'')"
proof -
  note t = create_superuser_contract [where mk = sample_hasher and pw = "Some ''pw''"
      and d = sample_db and e = "''admin@example.com''"]
  have n: "normalize_email ''admin@example.com'' = ''admin@example.com''"
    by code_simp
  have free: "\<not> email_taken sample_db (normalize_email ''admin@example.com'')"
    unfolding n by (simp add: email_taken_def sample_db_def sample_user_def)
  from t free obtain u d' where
    s: "create_superuser sample_hasher ''admin@example.com'' (Some ''pw'') sample_db = (Inr u, d')"
    and f: "is_staff u" "is_superuser u" "password u = sample_hasher (Some ''pw'')"
      "email u = normalize_email ''admin@example.com''"
    by auto
  show ?thesis
    using free f by (simp add: s n sample_hasher_def)
qed

theorem create_superuser_counterexample:
  "create_superuser sample_hasher ''user@example.com'' (Some ''pw'') sample_db =
     (Inl IntegrityError, sample_db)"
  by code_simp




section \<open>The invariant of reachable states\<close>

lemma db_ok_empty: "db_ok empty_db"
  by (simp add: db_ok_def empty_db_def)

lemma db_ok_insert_user:
  assumes "db_ok d"
  shows "db_ok (snd (insert_user x d))"
proof (cases "email_taken d (email x)")
  case True
  then show ?thesis using assms by (simp add: insert_user_def)
next
  case False
  then have e: "email x \<notin> email ` set (users d)"
    by (auto simp: email_taken_def)
  have i: "next_user_id d \<notin> user_id ` set (users d)"
    using assms by (auto simp: db_ok_def)
  have l: "\<forall>y \<in> set (users d). user_id y < Suc (next_user_id d)"
    using assms by (auto simp: db_ok_def less_Suc_eq)
  show ?thesis
    using assms False e i l by (simp add: insert_user_def db_ok_def Let_def)
qed


lemma db_ok_create_user:
  "db_ok d \<Longrightarrow> db_ok (snd (create_user mk e pw ef d))"
  by (simp add: create_user_def Let_def db_ok_insert_user)

lemma db_ok_cong:
  assumes "map user_id (users d') = map user_id (users d)"
    and "map email (users d') = map email (users d)"
    and "map book_id (books d') = map book_id (books d)"
    and "next_user_id d' = next_user_id d" and "next_book_id d' = next_book_id d"
  shows "db_ok d' = db_ok d"
proof -
  have u: "(\<forall>x \<in> set (users z). user_id x < n) \<longleftrightarrow> (\<forall>i \<in> set (map user_id (users z)). i < n)"
    for z n by simp
  have b: "(\<forall>x \<in> set (books z). book_id x < n) \<longleftrightarrow> (\<forall>i \<in> set (map book_id (books z)). i < n)"
    for z n by simp
  show ?thesis
    unfolding db_ok_def u b assms by (rule refl)
qed

lemma db_ok_update_user:
  assumes ok: "db_ok d" and x: "x \<in> set (users d)"
    and id: "user_id u = user_id x" and em: "email u = email x"
  shows "db_ok (snd (update_user u d))"
proof -
  have inj_id: "inj_on user_id (set (users d))" and inj_em: "inj_on email (set (users d))"
    using ok by (simp_all add: db_ok_def distinct_map)
  have no_clash: "\<not> (\<exists>y \<in> set (users d). user_id y \<noteq> user_id u \<and> email y = email u)"
  proof
    assume "\<exists>y \<in> set (users d). user_id y \<noteq> user_id u \<and> email y = email u"
    then obtain y where y: "y \<in> set (users d)" "user_id y \<noteq> user_id x" "email y = email x"
      by (auto simp: id em)
    have "y = x"
      using inj_em y(1,3) x by (simp add: inj_on_eq_iff)
    with y(2) show False by simp
  qed
  have ex: "\<exists>y \<in> set (users d). user_id y = user_id u"
    using x id by auto
  let ?d' = "d\<lparr>users := map (\<lambda>y. if user_id y = user_id u then u else y) (users d)\<rparr>"
  have upd: "update_user u d = (Inr u, ?d')"
    using no_clash ex unfolding update_user_def by (simp only: if_True if_False)
  have ids: "map user_id (users ?d') = map user_id (users d)"
    by (simp add: comp_def)
  have "email (if user_id y = user_id u then u else y) = email y" if "y \<in> set (users d)" for y
  proof (cases "user_id y = user_id u")
    case True
    then have "y = x"
      using inj_id that x id by (simp add: inj_on_eq_iff)
    then show ?thesis by (simp add: em)
  next
    case False
    then show ?thesis by simp
  qed
  then have ems: "map email (users ?d') = map email (users d)"
    by (simp add: comp_def)
  have "db_ok ?d' = db_ok d"
    using ids ems by (rule db_ok_cong) simp_all
  then show ?thesis
    using ok by (simp add: upd)
qed

lemma db_ok_create_superuser:
  assumes "db_ok d"
  shows "db_ok (snd (create_superuser mk e pw d))"
proof (cases "create_user mk e pw no_extra_fields d")
  case (Pair r d0)
  have ok0: "db_ok d0"
    using db_ok_create_user [OF assms, of mk e pw no_extra_fields] Pair by simp
  show ?thesis
  proof (cases r)
    case (Inl err)
    then show ?thesis
      using ok0 Pair by (simp add: create_superuser_def)
  next
    case (Inr u0)
    have ne: "e \<noteq> []"
      using Pair Inr create_user_empty [of mk pw no_extra_fields d] by auto
    have free: "\<not> email_taken d (normalize_email e)"
      using Pair Inr ne create_user_taken [of e d mk pw no_extra_fields] by auto
    from create_user_fresh [OF ne free, of mk pw no_extra_fields] Pair Inr
    have "d0 = d\<lparr>users := users d @ [u0], next_user_id := Suc (next_user_id d)\<rparr>"
      by auto
    then have mem: "u0 \<in> set (users d0)"
      by simp
    have "db_ok (snd (update_user (u0\<lparr>is_superuser := True, is_staff := True\<rparr>) d0))"
      using ok0 mem by (rule db_ok_update_user) simp_all
    then show ?thesis
      using Pair Inr by (simp add: create_superuser_def Let_def)
  qed
qed

lemma db_ok_serializer_create:
  assumes "db_ok d"
  shows "db_ok (snd (serializer_create owner vd u d))"
proof (cases "vd_release_date vd")
  case None
  then show ?thesis using assms by (simp add: serializer_create_def)
next
  case (Some rd)
  have i: "next_book_id d \<notin> book_id ` set (books d)"
    using assms by (auto simp: db_ok_def)
  have l: "\<forall>y \<in> set (books d). book_id y < Suc (next_book_id d)"
    using assms by (auto simp: db_ok_def less_Suc_eq)
  show ?thesis
    using assms Some i l by (simp add: serializer_create_def db_ok_def Let_def)
qed

lemma db_ok_create_view:
  assumes "db_ok d"
  shows "db_ok (snd (create_view dcd url c u data d))"
proof (cases "to_internal_value (get_serializer_class A_create) dcd False data")
  case (Inl err)
  then show ?thesis using assms by (simp add: create_view_def)
next
  case (Inr vd)
  obtain r d' where p: "serializer_create (user_id c) vd u d = (r, d')"
    by (cases "serializer_create (user_id c) vd u d")
  have "db_ok d'"
    using db_ok_serializer_create [OF assms, of "user_id c" vd u] p by simp
  then show ?thesis
    using Inr p by (cases r) (simp_all add: create_view_def perform_create_def)
qed

lemma save_book_existing:
  assumes "x \<in> set (books d)" "book_id b = book_id x"
  shows "save_book b d = d\<lparr>books := map (\<lambda>y. if book_id y = book_id b then b else y) (books d)\<rparr>"
proof -
  have "\<exists>y \<in> set (books d). book_id y = book_id b"
    using assms by auto
  then show ?thesis
    by (simp add: save_book_def)
qed

lemma db_ok_save_book:
  assumes "db_ok d" "x \<in> set (books d)" "book_id b = book_id x"
  shows "db_ok (save_book b d)"
proof -
  have "db_ok (save_book b d) = db_ok d"
    unfolding save_book_existing [OF assms(2,3)]
    by (rule db_ok_cong) (simp_all add: comp_def)
  then show ?thesis using assms(1) by simp
qed

lemma db_ok_update_view:
  assumes "db_ok d"
  shows "db_ok (snd (update_view dcd url p c pk u data d))"
proof (cases "get_object c pk d")
  case (Inl err)
  then show ?thesis using assms by (simp add: update_view_def)
next
  case found: (Inr inst)
  then have mem: "inst \<in> set (books d)"
    by (simp add: get_object_Inr)
  show ?thesis
  proof (cases "to_internal_value BookSerializer dcd p data")
    case (Inl err)
    then show ?thesis
      using found assms by (simp only: update_view_def update_view_class sum.case snd_conv)
  next
    case (Inr vd)
    have "db_ok (save_book (set_attrs inst vd u) d)"
      using assms mem by (rule db_ok_save_book) (simp add: set_attrs_keeps)
    then show ?thesis
      using Inr found
      by (simp only: update_view_def update_view_class sum.case serializer_update_def Let_def
          prod.case snd_conv)
  qed
qed

lemma db_ok_upload_image:
  assumes "db_ok d"
  shows "db_ok (snd (upload_image dcd url c pk u data d))"
proof (cases "get_object c pk d")
  case (Inl err)
  then show ?thesis using assms by (simp add: upload_image_def)
next
  case found: (Inr inst)
  then have mem: "inst \<in> set (books d)"
    by (simp add: get_object_Inr)
  have cls: "get_serializer_class A_upload_image = BookImageSerializer"
    by (simp add: get_serializer_class_def)
  show ?thesis
  proof (cases "to_internal_value BookImageSerializer dcd False data")
    case (Inl err)
    then show ?thesis
      using found assms by (simp add: upload_image_def cls)
  next
    case (Inr vd)
    have "db_ok (save_book (set_attrs inst vd u) d)"
      using assms mem by (rule db_ok_save_book) (simp add: set_attrs_keeps)
    then show ?thesis
      using Inr found by (simp add: upload_image_def cls serializer_update_def Let_def)
  qed
qed

lemma db_ok_destroy_view:
  assumes "db_ok d"
  shows "db_ok (snd (destroy_view c pk d))"
proof (cases "get_object c pk d")
  case (Inl err)
  then show ?thesis using assms by (simp add: destroy_view_def)
next
  case (Inr inst)
  have "distinct (map book_id (filter (\<lambda>b. book_id b \<noteq> book_id inst) (books d)))"
    using assms by (simp add: db_ok_def distinct_map_filter)
  then show ?thesis
    using assms Inr by (simp add: destroy_view_def db_ok_def)
qed

text \<open>Every state the API can reach has unique primary keys and unique addresses.\<close>

lemma reachable_db_ok: "reachable d \<Longrightarrow> db_ok d"
proof (induction rule: reachable.induct)
  case init
  show ?case by (rule db_ok_empty)
qed (simp_all add: db_ok_create_user db_ok_create_superuser db_ok_serializer_create
    db_ok_create_view db_ok_update_view db_ok_upload_image db_ok_destroy_view)

lemma reachable_distinct_ids: "reachable d \<Longrightarrow> distinct (map book_id (books d))"
  using reachable_db_ok [of d] by (simp add: db_ok_def)

section \<open>The properties on the fixtures\<close>

theorem list_owner_scoped_desc_witness:
  "distinct (map book_id (books sample_db)) \<and>
   map book_id (get_queryset sample_caller sample_db) = [3, 1] \<and>
   sorted_wrt (>) (map book_id (get_queryset sample_caller sample_db))"
proof -
  have d: "distinct (map book_id (books sample_db))"
    by (simp add: sample_db_def sample_book_def)
  have q: "map book_id (get_queryset sample_caller sample_db) = [3, 1]"
    by code_simp
  have s: "sorted_wrt (>) (map book_id (get_queryset sample_caller sample_db))"
    using list_owner_scoped_desc [where c = sample_caller and d = sample_db and url = sample_url] d
    by blast
  show ?thesis
    using d q s by blast
qed

theorem retrieve_not_found_witness:
  "map (\<lambda>b. (book_id b, user b)) (books sample_db) = [(1, 1), (2, 2), (3, 1)] \<and>
   user_id sample_caller = 1 \<and>
   retrieve_view sample_url sample_caller 2 sample_db = Inl NotFound \<and>
   retrieve_view sample_url sample_caller 7 sample_db = Inl NotFound"
proof -
  have rows: "map (\<lambda>b. (book_id b, user b)) (books sample_db) = [(1, 1), (2, 2), (3, 1)]"
    by (simp add: sample_db_def sample_book_def)
  have c: "user_id sample_caller = 1"
    by (simp add: sample_caller_def sample_user_def)
  have h2: "\<not> (\<exists>b \<in> set (books sample_db). book_id b = 2 \<and> user b = user_id sample_caller)"
    by (simp add: c sample_db_def sample_book_def)
  have h7: "\<not> (\<exists>b \<in> set (books sample_db). book_id b = 7 \<and> user b = user_id sample_caller)"
    by (simp add: c sample_db_def sample_book_def)
  have r2: "retrieve_view sample_url sample_caller 2 sample_db = Inl NotFound"
    using retrieve_not_found [where d = sample_db and i = 2 and c = sample_caller and url = sample_url]
      h2 by blast
  have r7: "retrieve_view sample_url sample_caller 7 sample_db = Inl NotFound"
    using retrieve_not_found [where d = sample_db and i = 7 and c = sample_caller and url = sample_url]
      h7 by blast
  show ?thesis
    using rows c r2 r7 by blast
qed


theorem update_preserves_owner_witness:
  "distinct (map book_id (books sample_db)) \<and>
   map (\<lambda>b. (book_id b, user b))
     (books (snd (update_view sample_decodable sample_url True sample_caller 1 sample_uuid
        sample_patch sample_db))) = [(1, 1), (2, 2), (3, 1)] \<and>
   map title
     (books (snd (update_view sample_decodable sample_url True sample_caller 1 sample_uuid
        sample_patch sample_db))) = [''New title'', ''Sample book title'', ''Sample book title'']"
proof -
  have d: "distinct (map book_id (books sample_db))"
    by (simp add: sample_db_def sample_book_def)
  have rows: "map (\<lambda>b. (book_id b, user b)) (books sample_db) = [(1, 1), (2, 2), (3, 1)]"
    by (simp add: sample_db_def sample_book_def)
  have o: "map (\<lambda>b. (book_id b, user b))
     (books (snd (update_view sample_decodable sample_url True sample_caller 1 sample_uuid
        sample_patch sample_db))) = [(1, 1), (2, 2), (3, 1)]"
    using update_preserves_owner [OF d, where decodable = sample_decodable and url = sample_url
        and partial = True and caller = sample_caller and pk = 1 and u = sample_uuid
        and data = sample_patch]
    by (simp only: rows)
  have t: "map title
     (books (snd (update_view sample_decodable sample_url True sample_caller 1 sample_uuid
        sample_patch sample_db))) = [''New title'', ''Sample book title'', ''Sample book title'']"
    by code_simp
  show ?thesis
    using d o t by blast
qed

theorem upload_image_failure_witness:
  "get_object sample_caller 3 sample_db =
     Inr (sample_book 3 1 (Some ''uploads/book/0f0e0d0c-0b0a-4908-8706-050403020100.jpg'')) \<and>
   fst (upload_image sample_decodable sample_url sample_caller 3 sample_uuid sample_bad_upload
     sample_db) = Inl (ValidationError [(''image'', ''invalid'')]) \<and>
   snd (upload_image sample_decodable sample_url sample_caller 3 sample_uuid sample_bad_upload
     sample_db) = sample_db"
proof -
  have g: "get_object sample_caller 3 sample_db =
     Inr (sample_book 3 1 (Some ''uploads/book/0f0e0d0c-0b0a-4908-8706-050403020100.jpg''))"
    by code_simp
  have f: "fst (upload_image sample_decodable sample_url sample_caller 3 sample_uuid
     sample_bad_upload sample_db) = Inl (ValidationError [(''image'', ''invalid'')])"
    by code_simp
  have s: "snd (upload_image sample_decodable sample_url sample_caller 3 sample_uuid
     sample_bad_upload sample_db) = sample_db"
    using upload_image_failure [OF g, where decodable = sample_decodable and url = sample_url
        and u = sample_uuid and data = sample_bad_upload] f
    by blast
  show ?thesis
    using g f s by blast
qed

theorem upload_image_null_counterexample:
  "items sample_null_upload ''image'' = Some JNull \<and>
   get_object sample_caller 3 sample_db =
     Inr (sample_book 3 1 (Some ''uploads/book/0f0e0d0c-0b0a-4908-8706-050403020100.jpg'')) \<and>
   upload_image sample_decodable sample_url sample_caller 3 sample_uuid sample_null_upload sample_db =
     (Inr [(''id'', JInt 3), (''image'', JNull)],
      sample_db\<lparr>books := [sample_book 1 1 None, sample_book 2 2 None, sample_book 3 1 None]\<rparr>)"
proof -
  have a: "items sample_null_upload ''image'' = Some JNull"
    by (simp add: sample_null_upload_def)
  have b: "get_object sample_caller 3 sample_db =
     Inr (sample_book 3 1 (Some ''uploads/book/0f0e0d0c-0b0a-4908-8706-050403020100.jpg''))"
    by code_simp
  have c: "upload_image sample_decodable sample_url sample_caller 3 sample_uuid sample_null_upload
     sample_db = (Inr [(''id'', JInt 3), (''image'', JNull)],
      sample_db\<lparr>books := [sample_book 1 1 None, sample_book 2 2 None, sample_book 3 1 None]\<rparr>)"
    by code_simp
  show ?thesis
    using a b c by blast
qed


end
